theory Spec2Isabelle
  imports Main "HOL-Library.Word"
begin

unbundle bit_operations_syntax

section \<open>Machine types\<close>

type_synonym u8 = "8 word"
type_synonym u16 = "16 word"
type_synonym u32 = "32 word"
type_synonym u64 = "64 word"

section \<open>chips/m6502.h\<close>

text \<open>
  The pin masks are \<open>unsigned long long\<close> constants, hence 64-bit words. The status
  flags are \<open>int\<close> constants (\<open>1<<n\<close>); they are kept as integers and converted where
  the source stores them into a \<open>uint8_t\<close>.
\<close>

definition M6502_RW :: u64 where "M6502_RW = push_bit 24 1"
definition M6502_IRQ :: u64 where "M6502_IRQ = push_bit 25 1"
definition M6502_NMI :: u64 where "M6502_NMI = push_bit 26 1"
definition M6502_PIN_MASK :: u64 where "M6502_PIN_MASK = 0xFFFFFFFF"

definition M6502_CF :: int where "M6502_CF = push_bit 0 1"
definition M6502_ZF :: int where "M6502_ZF = push_bit 1 1"
definition M6502_IF :: int where "M6502_IF = push_bit 2 1"
definition M6502_DF :: int where "M6502_DF = push_bit 3 1"
definition M6502_BF :: int where "M6502_BF = push_bit 4 1"
definition M6502_XF :: int where "M6502_XF = push_bit 5 1"
definition M6502_VF :: int where "M6502_VF = push_bit 6 1"
definition M6502_NF :: int where "M6502_NF = push_bit 7 1"

text \<open>
  \<open>m6502_t\<close>. The tick callback has the C type \<open>uint64_t (*)(uint64_t)\<close>: it sees and
  returns a pin mask only, so it is a field of function type.
\<close>

record m6502_t =
  tick :: "u64 \<Rightarrow> u64"
  PINS :: u64
  A :: u8
  X :: u8
  Y :: u8
  S :: u8
  P :: u8
  PC :: u16
  irq_taken :: bool
  break_mask :: u64

text \<open>
  The pin macros, with the argument types at which \<open>m6502_reset\<close> and the tick protocol
  use them: a 64-bit pin mask, a 16-bit address, an 8-bit data value. \<open>data<<16\<close> is
  computed on the promoted \<open>int\<close> and cannot overflow for an 8-bit value.
\<close>

definition M6502_GET_ADDR :: "u64 \<Rightarrow> u16" where
  "M6502_GET_ADDR p = ucast (p AND 0xFFFF)"

definition M6502_SET_ADDR :: "u64 \<Rightarrow> u16 \<Rightarrow> u64" where
  "M6502_SET_ADDR p a = (p AND NOT 0xFFFF) OR (ucast a AND 0xFFFF)"

definition M6502_GET_DATA :: "u64 \<Rightarrow> u8" where
  "M6502_GET_DATA p = ucast (drop_bit 16 (p AND 0xFF0000))"

definition M6502_SET_DATA :: "u64 \<Rightarrow> u8 \<Rightarrow> u64" where
  "M6502_SET_DATA p d = (p AND NOT 0xFF0000) OR (push_bit 16 (ucast d) AND 0xFF0000)"

definition M6502_MAKE_PINS :: "u64 \<Rightarrow> u16 \<Rightarrow> u8 \<Rightarrow> u64" where
  "M6502_MAKE_PINS ctrl addr data =
     ctrl OR (push_bit 16 (ucast data) AND 0xFF0000) OR (ucast addr AND 0xFFFF)"

text \<open>\<open>m6502_init\<close>: \<open>memset\<close> to zero, then the callback, the pins, P and S.\<close>

definition m6502_init :: "(u64 \<Rightarrow> u64) \<Rightarrow> m6502_t" where
  "m6502_init tick_cb =
     \<lparr> tick = tick_cb, PINS = M6502_RW, A = 0, X = 0, Y = 0, S = 0xFD,
       P = word_of_int (M6502_IF OR M6502_XF), PC = 0, irq_taken = False, break_mask = 0 \<rparr>"

text \<open>
  \<open>m6502_reset\<close>. The two callback invocations happen in program order: first the low
  byte at 0xFFFC, then the high byte at 0xFFFD; \<open>(h<<8)|l\<close> is computed on \<open>int\<close> and
  stored into the 16-bit PC.
\<close>

definition m6502_reset :: "m6502_t \<Rightarrow> m6502_t" where
  "m6502_reset c =
     (let c1 = c\<lparr>irq_taken := False\<rparr>;
          c2 = c1\<lparr>P := word_of_int (M6502_IF OR M6502_XF)\<rparr>;
          c3 = c2\<lparr>S := 0xFD\<rparr>;
          c4 = c3\<lparr>PINS := M6502_RW\<rparr>;
          l = M6502_GET_DATA (tick c4 (M6502_MAKE_PINS M6502_RW 0xFFFC 0x00));
          h = M6502_GET_DATA (tick c4 (M6502_MAKE_PINS M6502_RW 0xFFFD 0x00))
      in c4\<lparr>PC := word_of_int (push_bit 8 (uint h) OR uint l)\<rparr>)"

section \<open>chips/z80.h\<close>

subsection \<open>Flags and pins\<close>

text \<open>
  \<open>z80_flags\<close> and \<open>z80_pins\<close> are enums, so their constants have type \<open>int\<close>. The flag
  constants are used inside \<open>int\<close> arithmetic and stay integers; the pin constants are
  only ever combined with the 16-bit CTRL field and are given that width.
\<close>

definition Z80_CF :: int where "Z80_CF = push_bit 0 1"
definition Z80_NF :: int where "Z80_NF = push_bit 1 1"
definition Z80_VF :: int where "Z80_VF = push_bit 2 1"
definition Z80_PF :: int where "Z80_PF = Z80_VF"
definition Z80_XF :: int where "Z80_XF = push_bit 3 1"
definition Z80_HF :: int where "Z80_HF = push_bit 4 1"
definition Z80_YF :: int where "Z80_YF = push_bit 5 1"
definition Z80_ZF :: int where "Z80_ZF = push_bit 6 1"
definition Z80_SF :: int where "Z80_SF = push_bit 7 1"

definition Z80_M1 :: u16 where "Z80_M1 = push_bit 0 1"
definition Z80_MREQ :: u16 where "Z80_MREQ = push_bit 1 1"
definition Z80_IORQ :: u16 where "Z80_IORQ = push_bit 2 1"
definition Z80_RD :: u16 where "Z80_RD = push_bit 3 1"
definition Z80_WR :: u16 where "Z80_WR = push_bit 4 1"
definition Z80_RFSH :: u16 where "Z80_RFSH = push_bit 5 1"
definition Z80_HALT :: u16 where "Z80_HALT = push_bit 6 1"
definition Z80_WAIT :: u16 where "Z80_WAIT = push_bit 7 1"
definition Z80_INT :: u16 where "Z80_INT = push_bit 8 1"
definition Z80_NMI :: u16 where "Z80_NMI = push_bit 9 1"
definition Z80_RESET :: u16 where "Z80_RESET = push_bit 10 1"
definition Z80_BUSREQ :: u16 where "Z80_BUSREQ = push_bit 11 1"
definition Z80_BUSACK :: u16 where "Z80_BUSACK = push_bit 12 1"

subsection \<open>CPU state\<close>

text \<open>
  \<open>struct _z80\<close>. The first union overlays \<open>r8[8]\<close>, \<open>r16[4]\<close> and the named registers;
  the record keeps the eight bytes in their storage order C, B, E, D, L, H, A, F and
  \<open>r8_get\<close>/\<open>r8_set\<close> below are the view through \<open>r8[i]\<close>. The alternate registers
  \<open>BC_\<close>, \<open>DE_\<close>, \<open>HL_\<close>, \<open>AF_\<close>, \<open>WZ_\<close> are written with a prime. The \<open>tick\<close> function
  pointer is not a field: it is the parameter \<open>tick_func\<close> of every operation that
  calls it, so the callback stays the same throughout a call (a callback that
  overwrites \<open>cpu->tick\<close> itself is not represented). The opaque \<open>context\<close> pointer is
  the field \<open>tick_context\<close>, an address.
\<close>

record z80 =
  C :: u8
  B :: u8
  E :: u8
  D :: u8
  L :: u8
  H :: u8
  A :: u8
  F :: u8
  BC' :: u16
  DE' :: u16
  HL' :: u16
  AF' :: u16
  WZ :: u16
  WZ' :: u16
  IX :: u16
  IY :: u16
  R :: u8
  I :: u8
  SP :: u16
  PC :: u16
  CTRL :: u16
  ADDR :: u16
  DATA :: u8
  im :: u8
  imm1 :: bool
  imm2 :: bool
  ticks :: u32
  tick_context :: nat

text \<open>
  \<open>r8[i]\<close>. Every index the decoder forms is a 3-bit opcode field with bit 0 flipped,
  so it lies in 0..7; index 7 is the last case.
\<close>

definition r8_get :: "z80 \<Rightarrow> u8 \<Rightarrow> u8" where
  "r8_get cpu i =
     (if i = 0 then C cpu else if i = 1 then B cpu
      else if i = 2 then E cpu else if i = 3 then D cpu
      else if i = 4 then L cpu else if i = 5 then H cpu
      else if i = 6 then A cpu else F cpu)"

definition r8_set :: "z80 \<Rightarrow> u8 \<Rightarrow> u8 \<Rightarrow> z80" where
  "r8_set cpu i v =
     (if i = 0 then cpu\<lparr>C := v\<rparr> else if i = 1 then cpu\<lparr>B := v\<rparr>
      else if i = 2 then cpu\<lparr>E := v\<rparr> else if i = 3 then cpu\<lparr>D := v\<rparr>
      else if i = 4 then cpu\<lparr>L := v\<rparr> else if i = 5 then cpu\<lparr>H := v\<rparr>
      else if i = 6 then cpu\<lparr>A := v\<rparr> else cpu\<lparr>F := v\<rparr>)"

text \<open>
  The 16-bit views \<open>HL\<close> and \<open>IR\<close> of the byte pairs. The unions declare the low byte
  first (\<open>struct { uint8_t L, H; }\<close>, \<open>struct { uint8_t R, I; }\<close>), which is the byte
  order of a little-endian host: \<open>HL = (H << 8) | L\<close> and \<open>IR = (I << 8) | R\<close>.
\<close>

definition HL :: "z80 \<Rightarrow> u16" where
  "HL cpu = push_bit 8 (ucast (H cpu)) OR ucast (L cpu)"

definition IR :: "z80 \<Rightarrow> u16" where
  "IR cpu = push_bit 8 (ucast (I cpu)) OR ucast (R cpu)"

subsection \<open>Bus cycles\<close>

text \<open>
  The callback has the C type \<open>void (*)(z80*)\<close>: it receives the whole CPU struct and
  may change any field of it, so it is a function from CPU states to CPU states. A run
  pairs the CPU state with the trace of the states that were handed to the callback,
  one entry per invocation, oldest first. The trace is not part of the C program: it
  records the invocations so that they can be counted.

  Names of the source that begin with an underscore (\<open>_ON\<close>, \<open>_OFF\<close>, \<open>_TICK\<close>,
  \<open>_z80_fetch\<close>, \<open>_SZ\<close>, ...) are written without it. The update of R in the fetch is
  computed on \<open>int\<close> in C; only the low seven bits of \<open>R + 1\<close> are kept, so the 8-bit
  sum gives the same value.
\<close>

type_synonym tick_fn = "z80 \<Rightarrow> z80"
type_synonym run = "z80 \<times> z80 list"

definition ON :: "u16 \<Rightarrow> z80 \<Rightarrow> z80" where
  "ON m cpu = cpu\<lparr>CTRL := CTRL cpu OR m\<rparr>"

definition OFF :: "u16 \<Rightarrow> z80 \<Rightarrow> z80" where
  "OFF m cpu = cpu\<lparr>CTRL := CTRL cpu AND NOT m\<rparr>"

definition TICK :: "tick_fn \<Rightarrow> run \<Rightarrow> run" where
  "TICK tick_func rn =
     (let cpu = fst rn; cpu' = tick_func cpu
      in (cpu'\<lparr>ticks := ticks cpu' + 1\<rparr>, snd rn @ [cpu]))"

definition on_cpu :: "(z80 \<Rightarrow> z80) \<Rightarrow> run \<Rightarrow> run" where
  "on_cpu f rn = (f (fst rn), snd rn)"

definition z80_fetch :: "tick_fn \<Rightarrow> run \<Rightarrow> run" where
  "z80_fetch tick_func rn =
     (let r1 = on_cpu (ON Z80_M1) rn;
          r2 = on_cpu (\<lambda>cpu. cpu\<lparr>ADDR := PC cpu, PC := PC cpu + 1\<rparr>) r1;
          r3 = TICK tick_func r2;
          r4 = on_cpu (ON (Z80_MREQ OR Z80_RD)) r3;
          r5 = TICK tick_func r4;
          r6 = on_cpu (\<lambda>cpu. cpu\<lparr>R := (R cpu AND 0x80) OR ((R cpu + 1) AND 0x7F)\<rparr>) r5;
          r7 = on_cpu (OFF (Z80_M1 OR Z80_MREQ OR Z80_RD)) r6;
          r8 = on_cpu (ON Z80_RFSH) r7;
          r9 = on_cpu (\<lambda>cpu. cpu\<lparr>ADDR := IR cpu\<rparr>) r8;
          r10 = TICK tick_func r9;
          r11 = on_cpu (ON Z80_MREQ) r10;
          r12 = TICK tick_func r11
      in on_cpu (OFF (Z80_RFSH OR Z80_MREQ)) r12)"

definition z80_read :: "tick_fn \<Rightarrow> u16 \<Rightarrow> run \<Rightarrow> run" where
  "z80_read tick_func addr rn =
     (let r1 = on_cpu (\<lambda>cpu. cpu\<lparr>ADDR := addr\<rparr>) rn;
          r2 = TICK tick_func r1;
          r3 = on_cpu (ON (Z80_MREQ OR Z80_RD)) r2;
          r4 = TICK tick_func r3;
          r5 = on_cpu (OFF (Z80_MREQ OR Z80_RD)) r4
      in TICK tick_func r5)"

definition z80_write :: "tick_fn \<Rightarrow> u16 \<Rightarrow> u8 \<Rightarrow> run \<Rightarrow> run" where
  "z80_write tick_func addr data rn =
     (let r1 = on_cpu (\<lambda>cpu. cpu\<lparr>ADDR := addr\<rparr>) rn;
          r2 = TICK tick_func r1;
          r3 = on_cpu (ON (Z80_MREQ OR Z80_WR)) r2;
          r4 = on_cpu (\<lambda>cpu. cpu\<lparr>DATA := data\<rparr>) r3;
          r5 = TICK tick_func r4;
          r6 = on_cpu (OFF (Z80_MREQ OR Z80_WR)) r5
      in TICK tick_func r6)"

subsection \<open>MISC functions\<close>

text \<open>\<open>_z80_halt\<close> has an empty body in the source (its only content is a FIXME comment).\<close>

definition z80_halt :: "z80 \<Rightarrow> z80" where
  "z80_halt cpu = cpu"

subsection \<open>ALU functions\<close>

text \<open>
  The ALU computes on C \<open>int\<close>. Every intermediate value lies between -256 and 511, so no
  overflow can occur and the mathematical integers with two's-complement bit operations
  are exact; \<open>>>\<close> on a negative \<open>int\<close> is the arithmetic shift, which is what \<open>drop_bit\<close>
  is on \<open>int\<close>. Storing into a \<open>uint8_t\<close> reduces modulo 256 (\<open>word_of_int\<close>).
\<close>

definition SZ :: "int \<Rightarrow> int" where
  "SZ val = (if val AND 0xFF \<noteq> 0 then val AND Z80_SF else Z80_ZF)"

definition SZYXCH :: "int \<Rightarrow> int \<Rightarrow> int \<Rightarrow> int" where
  "SZYXCH acc val res =
     SZ res OR (res AND (Z80_YF OR Z80_XF)) OR (drop_bit 8 res AND Z80_CF)
       OR ((acc XOR val XOR res) AND Z80_HF)"

definition ADD_FLAGS :: "int \<Rightarrow> int \<Rightarrow> int \<Rightarrow> int" where
  "ADD_FLAGS acc val res =
     SZYXCH acc val res
       OR (drop_bit 5 ((val XOR acc XOR 0x80) AND (val XOR res)) AND Z80_VF)"

definition SUB_FLAGS :: "int \<Rightarrow> int \<Rightarrow> int \<Rightarrow> int" where
  "SUB_FLAGS acc val res =
     Z80_NF OR SZYXCH acc val res
       OR (drop_bit 5 ((val XOR acc) AND (res XOR acc)) AND Z80_VF)"

definition CP_FLAGS :: "int \<Rightarrow> int \<Rightarrow> int \<Rightarrow> int" where
  "CP_FLAGS acc val res =
     Z80_NF
       OR (SZ res OR (val AND (Z80_YF OR Z80_XF)) OR (drop_bit 8 res AND Z80_CF)
             OR ((acc XOR val XOR res) AND Z80_HF))
       OR (drop_bit 5 ((val XOR acc) AND (res XOR acc)) AND Z80_VF)"

definition z80_add8 :: "z80 \<Rightarrow> u8 \<Rightarrow> z80" where
  "z80_add8 cpu val =
     (let res = uint (A cpu) + uint val;
          cpu1 = cpu\<lparr>F := word_of_int (ADD_FLAGS (uint (A cpu)) (uint val) res)\<rparr>
      in cpu1\<lparr>A := word_of_int res\<rparr>)"

definition z80_adc8 :: "z80 \<Rightarrow> u8 \<Rightarrow> z80" where
  "z80_adc8 cpu val =
     (let res = uint (A cpu) + uint val + (uint (F cpu) AND Z80_CF);
          cpu1 = cpu\<lparr>F := word_of_int (ADD_FLAGS (uint (A cpu)) (uint val) res)\<rparr>
      in cpu1\<lparr>A := word_of_int res\<rparr>)"

definition z80_sub8 :: "z80 \<Rightarrow> u8 \<Rightarrow> z80" where
  "z80_sub8 cpu val =
     (let res = uint (A cpu) - uint val;
          cpu1 = cpu\<lparr>F := word_of_int (SUB_FLAGS (uint (A cpu)) (uint val) res)\<rparr>
      in cpu1\<lparr>A := word_of_int res\<rparr>)"

definition z80_sbc8 :: "z80 \<Rightarrow> u8 \<Rightarrow> z80" where
  "z80_sbc8 cpu val =
     (let res = uint (A cpu) - uint val - (uint (F cpu) AND Z80_CF);
          cpu1 = cpu\<lparr>F := word_of_int (SUB_FLAGS (uint (A cpu)) (uint val) res)\<rparr>
      in cpu1\<lparr>A := word_of_int res\<rparr>)"

definition z80_cp8 :: "z80 \<Rightarrow> u8 \<Rightarrow> z80" where
  "z80_cp8 cpu val =
     (let res = uint (A cpu) - uint val
      in cpu\<lparr>F := word_of_int (CP_FLAGS (uint (A cpu)) (uint val) res)\<rparr>)"

definition z80_neg8 :: "z80 \<Rightarrow> z80" where
  "z80_neg8 cpu = (let val = A cpu in z80_sub8 (cpu\<lparr>A := 0\<rparr>) val)"

subsection \<open>Instruction decoder\<close>

text \<open>
  \<open>_z80_op\<close>, branch for branch. The stub branches of the source (empty blocks and
  \<open>break\<close>-only cases) return the run unchanged. \<open>_READ(cpu->PC++)\<close> evaluates its
  argument once: the address is the old PC and PC is already incremented when the read
  cycle starts.
\<close>

definition z80_op :: "tick_fn \<Rightarrow> run \<Rightarrow> run" where
  "z80_op tick_func rn =
     (let cpu = fst rn;
          op = DATA cpu;
          x = drop_bit 6 op;
          y = drop_bit 3 op AND 7;
          z = op AND 7;
          p = drop_bit 1 y;
          q = y AND 1
      in if x = 1 then
           (if y = 6 then
              (if z = 6 then on_cpu z80_halt rn
               else z80_write tick_func (HL cpu) (r8_get cpu (z XOR 1)) rn)
            else if z = 6 then
              (let r1 = z80_read tick_func (HL cpu) rn
               in on_cpu (\<lambda>c. r8_set c (y XOR 1) (DATA c)) r1)
            else on_cpu (\<lambda>c. r8_set c (y XOR 1) (r8_get c (z XOR 1))) rn)
         else if x = 2 then rn
         else if x = 0 then
           (if z = 0 then
              (if y = 0 then rn else if y = 1 then rn else if y = 2 then rn
               else if y = 3 then rn else rn)
            else if z = 1 then (if q = 0 then rn else rn)
            else if z = 2 then rn
            else if z = 3 then rn
            else if z = 4 then rn
            else if z = 5 then rn
            else if z = 6 then
              (if y = 6 then rn
               else
                 (let addr = PC cpu;
                      r1 = on_cpu (\<lambda>c. c\<lparr>PC := PC c + 1\<rparr>) rn;
                      r2 = z80_read tick_func addr r1
                  in on_cpu (\<lambda>c. r8_set c (y XOR 1) (DATA c)) r2))
            else rn)
         else if x = 3 then rn
         else rn)"

subsection \<open>Public functions\<close>

text \<open>\<open>z80_init\<close>: \<open>memset\<close> to zero, then the callback and its context.\<close>

definition z80_init :: "nat \<Rightarrow> z80" where
  "z80_init ctx =
     \<lparr> C = 0, B = 0, E = 0, D = 0, L = 0, H = 0, A = 0, F = 0,
       BC' = 0, DE' = 0, HL' = 0, AF' = 0, WZ = 0, WZ' = 0, IX = 0, IY = 0,
       R = 0, I = 0, SP = 0, PC = 0, CTRL = 0, ADDR = 0, DATA = 0,
       im = 0, imm1 = False, imm2 = False, ticks = 0, tick_context = ctx \<rparr>"

text \<open>
  \<open>z80_step\<close> returns the run (final CPU state and the trace of this call's callback
  invocations) together with the value the C function returns.
\<close>

definition z80_step :: "tick_fn \<Rightarrow> z80 \<Rightarrow> run \<times> u32" where
  "z80_step tick_func cpu =
     (let r0 = (cpu\<lparr>ticks := 0\<rparr>, []);
          r1 = z80_fetch tick_func r0;
          r2 = z80_op tick_func r1
      in (r2, ticks (fst r2)))"

text \<open>\<open>z80_run\<close>: the body of the source is a FIXME comment and \<open>return 0\<close>.\<close>

definition z80_run :: "tick_fn \<Rightarrow> z80 \<Rightarrow> u32 \<Rightarrow> run \<times> u32" where
  "z80_run tick_func cpu t = ((cpu, []), 0)"

definition z80_on :: "z80 \<Rightarrow> u16 \<Rightarrow> z80" where
  "z80_on cpu pins = cpu\<lparr>CTRL := CTRL cpu OR pins\<rparr>"

definition z80_off :: "z80 \<Rightarrow> u16 \<Rightarrow> z80" where
  "z80_off cpu pins = cpu\<lparr>CTRL := CTRL cpu AND NOT pins\<rparr>"

definition z80_any :: "z80 \<Rightarrow> u16 \<Rightarrow> bool" where
  "z80_any cpu pins \<longleftrightarrow> CTRL cpu AND pins \<noteq> 0"

definition z80_all :: "z80 \<Rightarrow> u16 \<Rightarrow> bool" where
  "z80_all cpu pins \<longleftrightarrow> CTRL cpu AND pins = pins"

subsection \<open>Callback contracts and example hosts\<close>

text \<open>
  Two properties a host callback may have. \<open>tick_keeps_ticks\<close>: the callback leaves the
  cycle counter \<open>cpu->ticks\<close> as it found it. \<open>tick_pins_only\<close>: the callback changes
  nothing but the pin fields CTRL, ADDR and DATA.
\<close>

definition tick_keeps_ticks :: "tick_fn \<Rightarrow> bool" where
  "tick_keeps_ticks tick_func \<longleftrightarrow> (\<forall>s. ticks (tick_func s) = ticks s)"

definition tick_pins_only :: "tick_fn \<Rightarrow> bool" where
  "tick_pins_only tick_func \<longleftrightarrow>
     (\<forall>s. \<exists>c a d. tick_func s = s\<lparr>CTRL := c, ADDR := a, DATA := d\<rparr>)"

text \<open>
  \<open>rom_tick d\<close> is a host whose memory holds the byte \<open>d\<close> at every address: it answers a
  memory read (MREQ and RD both active) by placing \<open>d\<close> on the data pins and does
  nothing otherwise. \<open>wait_tick\<close> is a host that charges one wait cycle per bus cycle
  by incrementing \<open>cpu->ticks\<close> itself.
\<close>

definition rom_tick :: "u8 \<Rightarrow> tick_fn" where
  "rom_tick d cpu =
     (if CTRL cpu AND (Z80_MREQ OR Z80_RD) = (Z80_MREQ OR Z80_RD)
      then cpu\<lparr>DATA := d\<rparr> else cpu)"

definition wait_tick :: tick_fn where
  "wait_tick cpu = cpu\<lparr>ticks := ticks cpu + 1\<rparr>"

subsection \<open>Specification helpers\<close>

text \<open>
  The part of the flag byte that \<open>_SUB_FLAGS\<close> and \<open>_CP_FLAGS\<close> compute by the same
  expression: everything except the two undocumented bits.
\<close>

definition szhvnc :: "int \<Rightarrow> int \<Rightarrow> int \<Rightarrow> int" where
  "szhvnc acc val res =
     Z80_NF OR SZ res OR (drop_bit 8 res AND Z80_CF) OR ((acc XOR val XOR res) AND Z80_HF)
       OR (drop_bit 5 ((val XOR acc) AND (res XOR acc)) AND Z80_VF)"

section \<open>Properties of the m6502 pin macros and reset\<close>

lemma ctrl_low_bits:
  fixes ctrl :: u64
  assumes "ctrl AND 0xFFFFFF = 0" and "n < 24"
  shows "\<not> bit ctrl n"
proof
  assume b: "bit ctrl n"
  have m: "(0xFFFFFF :: u64) = mask 24" by (simp add: mask_eq_exp_minus_1)
  from assms(2) b have "bit (ctrl AND mask 24) n" by (simp add: bit_and_iff bit_mask_iff)
  with assms(1) m show False by simp
qed

lemma pin_field_masks:
  "(0xFFFF :: u64) = mask 16" "(0xFF0000 :: u64) = push_bit 16 (mask 8)"
  "(0xFFFFFF :: u64) = mask 24"
  by (simp_all add: mask_eq_exp_minus_1 push_bit_eq_mult)

lemma get_addr_make_pins:
  assumes "ctrl AND 0xFFFFFF = 0"
  shows "M6502_GET_ADDR (M6502_MAKE_PINS ctrl a d) = a"
proof (rule bit_word_eqI)
  fix n assume "n < LENGTH(16)"
  then have n: "n < 16" by simp
  from n ctrl_low_bits[OF assms, of n]
  show "bit (M6502_GET_ADDR (M6502_MAKE_PINS ctrl a d)) n = bit a n"
    unfolding M6502_GET_ADDR_def M6502_MAKE_PINS_def pin_field_masks
    by (auto simp add: bit_simps)
qed

lemma get_data_make_pins:
  assumes "ctrl AND 0xFFFFFF = 0"
  shows "M6502_GET_DATA (M6502_MAKE_PINS ctrl a d) = d"
proof (rule bit_word_eqI)
  fix n assume "n < LENGTH(8)"
  then have n: "n < 8" by simp
  from n ctrl_low_bits[OF assms, of "16 + n"]
  show "bit (M6502_GET_DATA (M6502_MAKE_PINS ctrl a d)) n = bit d n"
    unfolding M6502_GET_DATA_def M6502_MAKE_PINS_def pin_field_masks
    by (auto simp add: bit_simps)
qed

lemma ctrl_make_pins:
  "M6502_MAKE_PINS ctrl a d AND NOT 0xFFFFFF = ctrl AND NOT 0xFFFFFF"
proof (rule bit_word_eqI)
  fix n assume "n < LENGTH(64)"
  show "bit (M6502_MAKE_PINS ctrl a d AND NOT 0xFFFFFF) n = bit (ctrl AND NOT 0xFFFFFF) n"
    unfolding M6502_MAKE_PINS_def pin_field_masks
    by (auto simp add: bit_simps)
qed

lemma ctrl_only_high:
  fixes ctrl :: u64
  assumes "ctrl AND 0xFFFFFF = 0"
  shows "ctrl AND NOT 0xFFFFFF = ctrl"
proof (rule bit_word_eqI)
  fix n assume "n < LENGTH(64)"
  then have n: "n < 64" by simp
  from n ctrl_low_bits[OF assms, of n]
  show "bit (ctrl AND NOT 0xFFFFFF) n = bit ctrl n"
    unfolding pin_field_masks by (auto simp add: bit_simps)
qed

text \<open>
  Claim C6. For every set \<open>ctrl\<close> of control bits (a mask with no bit inside the address
  field, bits 0..15, or the data field, bits 16..23), every 16-bit address \<open>a\<close> and every
  8-bit data value \<open>d\<close>: extracting the address from \<open>M6502_MAKE_PINS(ctrl, a, d)\<close> gives
  \<open>a\<close>, extracting the data gives \<open>d\<close>, and the bits of the packed value above the two
  fields are exactly \<open>ctrl\<close>.
\<close>

theorem M6502_MAKE_PINS_roundtrip:
  assumes "ctrl AND 0xFFFFFF = 0"
  shows "M6502_GET_ADDR (M6502_MAKE_PINS ctrl a d) = a
       \<and> M6502_GET_DATA (M6502_MAKE_PINS ctrl a d) = d
       \<and> M6502_MAKE_PINS ctrl a d AND NOT 0xFFFFFF = ctrl"
  using get_addr_make_pins[OF assms] get_data_make_pins[OF assms]
    ctrl_make_pins[of ctrl a d] ctrl_only_high[OF assms]
  by simp

text \<open>
  The round trip at the control bits RW and IRQ, the address 0xFFFC and the data byte
  0x42.
\<close>

theorem M6502_MAKE_PINS_roundtrip_witness:
  "(M6502_RW OR M6502_IRQ) AND 0xFFFFFF = 0
   \<and> M6502_GET_ADDR (M6502_MAKE_PINS (M6502_RW OR M6502_IRQ) 0xFFFC 0x42) = 0xFFFC
   \<and> M6502_GET_DATA (M6502_MAKE_PINS (M6502_RW OR M6502_IRQ) 0xFFFC 0x42) = 0x42
   \<and> M6502_MAKE_PINS (M6502_RW OR M6502_IRQ) 0xFFFC 0x42 AND NOT 0xFFFFFF
       = M6502_RW OR M6502_IRQ"
proof -
  have h: "(M6502_RW OR M6502_IRQ) AND 0xFFFFFF = 0"
    by (simp add: M6502_RW_def M6502_IRQ_def)
  from M6502_MAKE_PINS_roundtrip[OF h, of "0xFFFC" "0x42"] h show ?thesis by blast
qed

lemma reset_vector_pins:
  "M6502_MAKE_PINS M6502_RW 0xFFFC 0 = 0x0100FFFC"
  "M6502_MAKE_PINS M6502_RW 0xFFFD 0 = 0x0100FFFD"
  by (simp_all add: M6502_MAKE_PINS_def M6502_RW_def)

lemma m6502_reset_eq:
  "m6502_reset c =
     c\<lparr>irq_taken := False, P := 0x24, S := 0xFD, PINS := 0x1000000,
       m6502_t.PC :=
         word_of_int (push_bit 8 (uint (M6502_GET_DATA (tick c 0x0100FFFD)))
                        OR uint (M6502_GET_DATA (tick c 0x0100FFFC)))\<rparr>"
  unfolding m6502_reset_def Let_def reset_vector_pins
  by (simp add: M6502_IF_def M6502_XF_def M6502_RW_def)

lemma pc_assemble:
  fixes h l :: u8
  shows "unat (word_of_int (push_bit 8 (uint h) OR uint l) :: u16) = 256 * unat h + unat l"
proof -
  have d: "push_bit 8 (uint h) OR uint l = push_bit 8 (uint h) + uint l"
    by (rule disjunctive_add [symmetric]) (auto simp add: bit_simps dest: bit_imp_le_length)
  have "uint h < 256" "uint l < 256" using uint_bounded[of h] uint_bounded[of l] by simp_all
  then have b: "0 \<le> push_bit 8 (uint h) + uint l" "push_bit 8 (uint h) + uint l < 65536"
    by (simp_all add: push_bit_eq_mult)
  have w: "uint (word_of_int k :: u16) = k" if "0 \<le> k" "k < 65536" for k
    using that by (simp add: uint_word_of_int take_bit_eq_mod)
  have "uint (word_of_int (push_bit 8 (uint h) + uint l) :: u16) = push_bit 8 (uint h) + uint l"
    using b by (rule w)
  then have "int (unat (word_of_int (push_bit 8 (uint h) + uint l) :: u16))
               = 256 * int (unat h) + int (unat l)"
    by (simp add: push_bit_eq_mult)
  then show ?thesis unfolding d by linarith
qed

text \<open>
  Claim C2. For every CPU state, and so for every tick callback stored in it: after
  \<open>m6502_reset\<close> the stack pointer S is 0xFD, the flags byte P is \<open>M6502_IF|M6502_XF\<close>
  (0x24), and PC is \<open>(h<<8)|l\<close>, that is \<open>256 * h + l\<close>, where \<open>l\<close> is the data byte of the
  pins the callback returned for the read at address 0xFFFC and \<open>h\<close> the data byte of
  the pins it returned for the read at address 0xFFFD. The two pin masks handed to the
  callback carry RW and the addresses 0xFFFC and 0xFFFD.
\<close>

theorem m6502_reset_registers:
  "S (m6502_reset c) = 0xFD
   \<and> P (m6502_reset c) = word_of_int (M6502_IF OR M6502_XF)
   \<and> P (m6502_reset c) = 0x24
   \<and> unat (m6502_t.PC (m6502_reset c))
       = 256 * unat (M6502_GET_DATA (tick c (M6502_MAKE_PINS M6502_RW 0xFFFD 0x00)))
         + unat (M6502_GET_DATA (tick c (M6502_MAKE_PINS M6502_RW 0xFFFC 0x00)))
   \<and> M6502_GET_ADDR (M6502_MAKE_PINS M6502_RW 0xFFFC 0x00) = 0xFFFC
   \<and> M6502_GET_ADDR (M6502_MAKE_PINS M6502_RW 0xFFFD 0x00) = 0xFFFD"
proof -
  have "S (m6502_reset c) = 0xFD" by (simp add: m6502_reset_eq)
  moreover have "P (m6502_reset c) = 0x24" by (simp add: m6502_reset_eq)
  moreover have "word_of_int (M6502_IF OR M6502_XF) = (0x24 :: u8)"
    by (simp add: M6502_IF_def M6502_XF_def)
  moreover have "unat (m6502_t.PC (m6502_reset c))
       = 256 * unat (M6502_GET_DATA (tick c 0x0100FFFD))
         + unat (M6502_GET_DATA (tick c 0x0100FFFC))"
    by (simp add: m6502_reset_eq pc_assemble)
  moreover have "M6502_GET_ADDR 0x0100FFFC = 0xFFFC" "M6502_GET_ADDR 0x0100FFFD = 0xFFFD"
    by (simp_all add: M6502_GET_ADDR_def)
  ultimately show ?thesis unfolding reset_vector_pins by simp
qed

text \<open>
  Claim C10. For every m6502 CPU state, \<open>m6502_reset\<close> leaves A, X and Y unchanged, and
  also the tick callback and the break mask: the state after reset is the state before
  with new values in exactly the five fields irq_taken, P, S, PINS and PC.
\<close>

theorem m6502_reset_frame:
  "m6502_t.A (m6502_reset c) = m6502_t.A c
   \<and> X (m6502_reset c) = X c
   \<and> Y (m6502_reset c) = Y c
   \<and> tick (m6502_reset c) = tick c
   \<and> break_mask (m6502_reset c) = break_mask c
   \<and> m6502_reset c =
       c\<lparr>irq_taken := irq_taken (m6502_reset c), P := P (m6502_reset c),
         S := S (m6502_reset c), PINS := PINS (m6502_reset c),
         m6502_t.PC := m6502_t.PC (m6502_reset c)\<rparr>"
  by (simp add: m6502_reset_eq)

section \<open>Properties of the Z80 ALU\<close>

lemmas z80_flag_defs = Z80_CF_def Z80_NF_def Z80_VF_def Z80_PF_def Z80_XF_def Z80_HF_def
  Z80_YF_def Z80_ZF_def Z80_SF_def

lemma ADD_FLAGS_bit0: "bit (ADD_FLAGS acc val res) 0 = bit res 8"
  by (simp add: ADD_FLAGS_def SZYXCH_def SZ_def z80_flag_defs bit_simps)

lemma carry_test:
  fixes f :: u8
  shows "(uint f AND Z80_CF \<noteq> 0) = bit f 0"
proof -
  have "(uint f AND 1 \<noteq> 0) = bit (uint f) 0"
    by (simp add: and_one_eq bit_0 mod_2_eq_odd)
  then show ?thesis by (simp add: Z80_CF_def bit_uint_iff)
qed

lemma carry_in_range:
  fixes f :: u8
  shows "0 \<le> uint f AND Z80_CF" "uint f AND Z80_CF \<le> 1"
  by (simp_all add: Z80_CF_def and_one_eq)

lemma unat_store_u8:
  assumes "0 \<le> k"
  shows "unat (word_of_int k :: u8) = nat k mod 256"
proof -
  have "uint (word_of_int k :: u8) = k mod 256" by (simp add: uint_word_of_int)
  then have "nat (uint (word_of_int k :: u8)) = nat (k mod 256)" by simp
  also have "\<dots> = nat k mod 256" using assms by (simp add: nat_mod_distrib)
  finally show ?thesis by simp
qed

lemma bit8_int_nat: "0 \<le> k \<Longrightarrow> bit k 8 = bit (nat k) 8"
  by (simp add: bit_nat_iff)

lemma z80_adc8_A:
  "unat (A (z80_adc8 cpu val))
     = (unat (A cpu) + unat val + nat (uint (F cpu) AND Z80_CF)) mod 256"
proof -
  let ?res = "uint (A cpu) + uint val + (uint (F cpu) AND Z80_CF)"
  have nn: "0 \<le> ?res" using carry_in_range(1)[of "F cpu"] by simp
  have n: "nat ?res = unat (A cpu) + unat val + nat (uint (F cpu) AND Z80_CF)"
    using carry_in_range(1)[of "F cpu"] by (simp add: nat_add_distrib)
  have "A (z80_adc8 cpu val) = word_of_int ?res" by (simp add: z80_adc8_def Let_def)
  then show ?thesis using unat_store_u8[OF nn] n by simp
qed

lemma z80_adc8_CF:
  "(uint (F (z80_adc8 cpu val)) AND Z80_CF \<noteq> 0)
     = bit (unat (A cpu) + unat val + nat (uint (F cpu) AND Z80_CF)) 8"
proof -
  let ?res = "uint (A cpu) + uint val + (uint (F cpu) AND Z80_CF)"
  have nn: "0 \<le> ?res" using carry_in_range(1)[of "F cpu"] by simp
  have n: "nat ?res = unat (A cpu) + unat val + nat (uint (F cpu) AND Z80_CF)"
    using carry_in_range(1)[of "F cpu"] by (simp add: nat_add_distrib)
  have "F (z80_adc8 cpu val) = word_of_int (ADD_FLAGS (uint (A cpu)) (uint val) ?res)"
    by (simp add: z80_adc8_def Let_def)
  then have "bit (F (z80_adc8 cpu val)) 0 = bit ?res 8"
    by (simp add: bit_word_of_int_iff ADD_FLAGS_bit0)
  then show ?thesis using bit8_int_nat[OF nn] n by (simp add: carry_test)
qed

lemma z80_add8_A:
  "unat (A (z80_add8 cpu val)) = (unat (A cpu) + unat val) mod 256"
proof -
  let ?res = "uint (A cpu) + uint val"
  have nn: "0 \<le> ?res" by simp
  have n: "nat ?res = unat (A cpu) + unat val" by (simp add: nat_add_distrib)
  have "A (z80_add8 cpu val) = word_of_int ?res" by (simp add: z80_add8_def Let_def)
  then show ?thesis using unat_store_u8[OF nn] n by simp
qed

lemma z80_add8_CF:
  "(uint (F (z80_add8 cpu val)) AND Z80_CF \<noteq> 0) = bit (unat (A cpu) + unat val) 8"
proof -
  let ?res = "uint (A cpu) + uint val"
  have nn: "0 \<le> ?res" by simp
  have n: "nat ?res = unat (A cpu) + unat val" by (simp add: nat_add_distrib)
  have "F (z80_add8 cpu val) = word_of_int (ADD_FLAGS (uint (A cpu)) (uint val) ?res)"
    by (simp add: z80_add8_def Let_def)
  then have "bit (F (z80_add8 cpu val)) 0 = bit ?res 8"
    by (simp add: bit_word_of_int_iff ADD_FLAGS_bit0)
  then show ?thesis using bit8_int_nat[OF nn] n by (simp add: carry_test)
qed

text \<open>
  Claim C1. For every CPU state (so for every accumulator value \<open>a = A\<close> and every
  carry-in bit \<open>c = F & Z80_CF\<close>) and every operand \<open>b\<close>: \<open>_z80_adc8\<close> stores
  \<open>(a + b + c) mod 256\<close> into A and sets Z80_CF in F exactly when bit 8 of the unmasked
  sum \<open>a + b + c\<close> is set; the carry-in is 0 or 1; and \<open>_z80_add8\<close> does the same with
  \<open>c = 0\<close>.
\<close>

theorem z80_add8_adc8_result_and_carry:
  "unat (A (z80_adc8 cpu val))
     = (unat (A cpu) + unat val + nat (uint (F cpu) AND Z80_CF)) mod 256
   \<and> (uint (F (z80_adc8 cpu val)) AND Z80_CF \<noteq> 0)
       = bit (unat (A cpu) + unat val + nat (uint (F cpu) AND Z80_CF)) 8
   \<and> nat (uint (F cpu) AND Z80_CF) \<le> 1
   \<and> unat (A (z80_add8 cpu val)) = (unat (A cpu) + unat val) mod 256
   \<and> (uint (F (z80_add8 cpu val)) AND Z80_CF \<noteq> 0) = bit (unat (A cpu) + unat val) 8"
proof -
  have "nat (uint (F cpu) AND Z80_CF) \<le> 1"
    using carry_in_range[of "F cpu"] by simp
  then show ?thesis
    using z80_adc8_A[of cpu val] z80_adc8_CF[of cpu val]
      z80_add8_A[of cpu val] z80_add8_CF[of cpu val]
    by blast
qed

lemma CP_FLAGS_split: "CP_FLAGS acc val res = szhvnc acc val res OR (val AND 0x28)"
  by (simp add: CP_FLAGS_def szhvnc_def z80_flag_defs ac_simps)

lemma SUB_FLAGS_split: "SUB_FLAGS acc val res = szhvnc acc val res OR (res AND 0x28)"
  by (simp add: SUB_FLAGS_def SZYXCH_def szhvnc_def z80_flag_defs ac_simps)

lemma and_and_numeral:
  fixes k :: int
  shows "(k AND m) AND n = k AND (m AND n)"
  by (simp add: ac_simps)

lemma szhvnc_no_xy: "szhvnc acc val res AND 0x28 = 0"
  by (simp add: szhvnc_def SZ_def z80_flag_defs bit.conj_disj_distrib2 and_and_numeral)

lemma CP_FLAGS_documented: "CP_FLAGS acc val res AND 0xD7 = SUB_FLAGS acc val res AND 0xD7"
  by (simp add: CP_FLAGS_split SUB_FLAGS_split bit.conj_disj_distrib2 and_and_numeral)

lemma CP_FLAGS_undocumented: "CP_FLAGS acc val res AND 0x28 = val AND 0x28"
  by (simp add: CP_FLAGS_split bit.conj_disj_distrib2 and_and_numeral szhvnc_no_xy)

lemma SUB_FLAGS_undocumented: "SUB_FLAGS acc val res AND 0x28 = res AND 0x28"
  by (simp add: SUB_FLAGS_split bit.conj_disj_distrib2 and_and_numeral szhvnc_no_xy)

lemma word_of_int_and_u8: "(word_of_int k :: u8) AND word_of_int m = word_of_int (k AND m)"
  by (simp add: of_int_and_eq)

text \<open>
  Claim C5. For every CPU state (accumulator \<open>a = A\<close>) and operand \<open>v\<close>: \<open>_z80_cp8\<close> leaves
  A unchanged (it changes no field but F); the sign, zero, half-carry, overflow,
  subtract and carry bits of the F it computes are those that \<open>_z80_sub8\<close> computes for
  \<open>a - v\<close>; and its XF and YF bits (bits 3 and 5) are those of the operand \<open>v\<close>, whereas
  \<open>_z80_sub8\<close> takes them from the result \<open>a - v\<close>.
\<close>

theorem z80_cp8_flags:
  "A (z80_cp8 cpu val) = A cpu
   \<and> z80_cp8 cpu val = cpu\<lparr>F := F (z80_cp8 cpu val)\<rparr>
   \<and> F (z80_cp8 cpu val)
         AND word_of_int (Z80_SF OR Z80_ZF OR Z80_HF OR Z80_VF OR Z80_NF OR Z80_CF)
       = F (z80_sub8 cpu val)
         AND word_of_int (Z80_SF OR Z80_ZF OR Z80_HF OR Z80_VF OR Z80_NF OR Z80_CF)
   \<and> F (z80_cp8 cpu val) AND word_of_int (Z80_YF OR Z80_XF)
       = val AND word_of_int (Z80_YF OR Z80_XF)
   \<and> F (z80_sub8 cpu val) AND word_of_int (Z80_YF OR Z80_XF)
       = (A cpu - val) AND word_of_int (Z80_YF OR Z80_XF)"
proof -
  let ?res = "uint (A cpu) - uint val"
  have m1: "Z80_SF OR Z80_ZF OR Z80_HF OR Z80_VF OR Z80_NF OR Z80_CF = 0xD7"
    and m2: "Z80_YF OR Z80_XF = 0x28"
    by (simp_all add: z80_flag_defs)
  have a: "A (z80_cp8 cpu val) = A cpu" by (simp add: z80_cp8_def Let_def)
  have fr: "z80_cp8 cpu val = cpu\<lparr>F := F (z80_cp8 cpu val)\<rparr>"
    by (simp add: z80_cp8_def Let_def)
  have fc: "F (z80_cp8 cpu val) = word_of_int (CP_FLAGS (uint (A cpu)) (uint val) ?res)"
    by (simp add: z80_cp8_def Let_def)
  have fs: "F (z80_sub8 cpu val) = word_of_int (SUB_FLAGS (uint (A cpu)) (uint val) ?res)"
    by (simp add: z80_sub8_def Let_def)
  have d: "F (z80_cp8 cpu val) AND word_of_int 0xD7 = F (z80_sub8 cpu val) AND word_of_int 0xD7"
    unfolding fc fs word_of_int_and_u8 CP_FLAGS_documented ..
  have u: "F (z80_cp8 cpu val) AND word_of_int 0x28 = val AND word_of_int 0x28"
    unfolding fc word_of_int_and_u8 CP_FLAGS_undocumented by (simp add: of_int_and_eq)
  have s: "F (z80_sub8 cpu val) AND word_of_int 0x28 = (A cpu - val) AND word_of_int 0x28"
    unfolding fs word_of_int_and_u8 SUB_FLAGS_undocumented by (simp add: of_int_and_eq)
  show ?thesis unfolding m1 m2 using a fr d u s by blast
qed

section \<open>Properties of the Z80 bus cycles and decoder\<close>

subsection \<open>Traces and the cycle counter\<close>

lemma snd_on_cpu: "snd (on_cpu f rn) = snd rn"
  by (simp add: on_cpu_def)

lemma fst_on_cpu: "fst (on_cpu f rn) = f (fst rn)"
  by (simp add: on_cpu_def)

lemma snd_TICK: "snd (TICK tick_func rn) = snd rn @ [fst rn]"
  by (simp add: TICK_def Let_def)

lemma fst_TICK:
  "fst (TICK tick_func rn) = (tick_func (fst rn))\<lparr>ticks := ticks (tick_func (fst rn)) + 1\<rparr>"
  by (simp add: TICK_def Let_def)

lemma ticks_ON: "ticks (ON m cpu) = ticks cpu"
  by (simp add: ON_def)

lemma ticks_OFF: "ticks (OFF m cpu) = ticks cpu"
  by (simp add: OFF_def)

lemma ticks_r8_set: "ticks (r8_set cpu i v) = ticks cpu"
  by (simp add: r8_set_def)

lemma ticks_TICK:
  "tick_keeps_ticks tick_func \<Longrightarrow> ticks (fst (TICK tick_func rn)) = ticks (fst rn) + 1"
  by (simp add: fst_TICK tick_keeps_ticks_def)

text \<open>The number of callback invocations of each bus cycle, for any callback.\<close>

lemma z80_fetch_trace: "length (snd (z80_fetch tick_func rn)) = length (snd rn) + 4"
  by (simp add: z80_fetch_def Let_def snd_on_cpu snd_TICK)

lemma z80_read_trace: "length (snd (z80_read tick_func a rn)) = length (snd rn) + 3"
  by (simp add: z80_read_def Let_def snd_on_cpu snd_TICK)

lemma z80_write_trace: "length (snd (z80_write tick_func a d rn)) = length (snd rn) + 3"
  by (simp add: z80_write_def Let_def snd_on_cpu snd_TICK)

text \<open>The cycle counter after each bus cycle, for a callback that leaves it alone.\<close>

lemma z80_fetch_ticks:
  "tick_keeps_ticks tick_func \<Longrightarrow>
     ticks (fst (z80_fetch tick_func rn)) = ticks (fst rn) + 4"
  by (simp add: z80_fetch_def Let_def fst_on_cpu ticks_TICK ticks_ON ticks_OFF)

lemma z80_read_ticks:
  "tick_keeps_ticks tick_func \<Longrightarrow>
     ticks (fst (z80_read tick_func a rn)) = ticks (fst rn) + 3"
  by (simp add: z80_read_def Let_def fst_on_cpu ticks_TICK ticks_ON ticks_OFF)

lemma z80_write_ticks:
  "tick_keeps_ticks tick_func \<Longrightarrow>
     ticks (fst (z80_write tick_func a d rn)) = ticks (fst rn) + 3"
  by (simp add: z80_write_def Let_def fst_on_cpu ticks_TICK ticks_ON ticks_OFF)

text \<open>
  The decoder either runs no bus cycle or exactly one memory read or write cycle, and
  counter and trace grow together.
\<close>

lemma z80_op_count:
  assumes "tick_keeps_ticks tick_func"
  shows "\<exists>n\<le>3. ticks (fst (z80_op tick_func rn)) = ticks (fst rn) + of_nat n
            \<and> length (snd (z80_op tick_func rn)) = length (snd rn) + n"
proof -
  have "(ticks (fst (z80_op tick_func rn)) = ticks (fst rn) + of_nat 0
          \<and> length (snd (z80_op tick_func rn)) = length (snd rn) + 0)
      \<or> (ticks (fst (z80_op tick_func rn)) = ticks (fst rn) + of_nat 3
          \<and> length (snd (z80_op tick_func rn)) = length (snd rn) + 3)"
    using assms
    by (simp add: z80_op_def Let_def fst_on_cpu snd_on_cpu z80_halt_def ticks_r8_set
        z80_read_ticks z80_write_ticks z80_read_trace z80_write_trace)
  then show ?thesis by (metis le_refl zero_le)
qed

lemma unat_of_nat_small:
  assumes "n \<le> 7"
  shows "unat (of_nat n :: u32) = n"
  using assms by (simp add: unat_of_nat)

subsection \<open>The example hosts\<close>

lemma rom_tick_keeps: "tick_keeps_ticks (rom_tick d)"
  by (simp add: tick_keeps_ticks_def rom_tick_def)

lemma rom_tick_pins: "tick_pins_only (rom_tick d)"
  unfolding tick_pins_only_def
proof
  fix s :: z80
  show "\<exists>c a d'. rom_tick d s = s\<lparr>CTRL := c, ADDR := a, DATA := d'\<rparr>"
  proof (cases "CTRL s AND (Z80_MREQ OR Z80_RD) = Z80_MREQ OR Z80_RD")
    case True
    then have "rom_tick d s = s\<lparr>CTRL := CTRL s, ADDR := ADDR s, DATA := d\<rparr>"
      by (simp add: rom_tick_def)
    then show ?thesis by blast
  next
    case False
    then have "rom_tick d s = s\<lparr>CTRL := CTRL s, ADDR := ADDR s, DATA := DATA s\<rparr>"
      by (simp add: rom_tick_def)
    then show ?thesis by blast
  qed
qed

subsection \<open>The fetch cycle under a callback that changes only the pins\<close>

lemma TICK_pins:
  assumes "tick_pins_only tick_func"
  shows "\<exists>c a d. fst (TICK tick_func rn) =
           (fst rn)\<lparr>CTRL := c, ADDR := a, DATA := d, ticks := ticks (fst rn) + 1\<rparr>"
proof -
  from assms obtain c a d
    where "tick_func (fst rn) = (fst rn)\<lparr>CTRL := c, ADDR := a, DATA := d\<rparr>"
    unfolding tick_pins_only_def by blast
  then have "fst (TICK tick_func rn) =
      (fst rn)\<lparr>CTRL := c, ADDR := a, DATA := d, ticks := ticks (fst rn) + 1\<rparr>"
    by (simp add: fst_TICK)
  then show ?thesis by blast
qed

lemma z80_fetch_pins:
  assumes "tick_pins_only tick_func"
  shows "\<exists>c a d. fst (z80_fetch tick_func rn) =
           (fst rn)\<lparr>PC := PC (fst rn) + 1,
                     R := (R (fst rn) AND 0x80) OR ((R (fst rn) + 1) AND 0x7F),
                     ticks := ticks (fst rn) + 4, CTRL := c, ADDR := a, DATA := d\<rparr>"
proof -
  define r2 where "r2 =
    on_cpu (\<lambda>cpu. cpu\<lparr>ADDR := PC cpu, PC := PC cpu + 1\<rparr>) (on_cpu (ON Z80_M1) rn)"
  define r4 where "r4 = on_cpu (ON (Z80_MREQ OR Z80_RD)) (TICK tick_func r2)"
  define r9 where "r9 =
    on_cpu (\<lambda>cpu. cpu\<lparr>ADDR := IR cpu\<rparr>) (on_cpu (ON Z80_RFSH)
      (on_cpu (OFF (Z80_M1 OR Z80_MREQ OR Z80_RD))
        (on_cpu (\<lambda>cpu. cpu\<lparr>R := (R cpu AND 0x80) OR ((R cpu + 1) AND 0x7F)\<rparr>)
          (TICK tick_func r4))))"
  define r11 where "r11 = on_cpu (ON Z80_MREQ) (TICK tick_func r9)"
  have f: "z80_fetch tick_func rn = on_cpu (OFF (Z80_RFSH OR Z80_MREQ)) (TICK tick_func r11)"
    by (simp add: z80_fetch_def Let_def r2_def r4_def r9_def r11_def)
  have s2: "fst r2 =
      (fst rn)\<lparr>PC := PC (fst rn) + 1, CTRL := CTRL (fst rn) OR Z80_M1, ADDR := PC (fst rn)\<rparr>"
    by (simp add: r2_def fst_on_cpu ON_def)
  obtain c1 a1 d1 where "fst (TICK tick_func r2) =
      (fst r2)\<lparr>CTRL := c1, ADDR := a1, DATA := d1, ticks := ticks (fst r2) + 1\<rparr>"
    using TICK_pins[OF assms] by blast
  then have s4: "fst r4 =
      (fst rn)\<lparr>PC := PC (fst rn) + 1, ticks := ticks (fst rn) + 1,
        CTRL := c1 OR (Z80_MREQ OR Z80_RD), ADDR := a1, DATA := d1\<rparr>"
    by (simp add: r4_def fst_on_cpu ON_def s2)
  obtain c2 a2 d2 where "fst (TICK tick_func r4) =
      (fst r4)\<lparr>CTRL := c2, ADDR := a2, DATA := d2, ticks := ticks (fst r4) + 1\<rparr>"
    using TICK_pins[OF assms] by blast
  then have s9: "fst r9 =
      (fst rn)\<lparr>PC := PC (fst rn) + 1,
        R := (R (fst rn) AND 0x80) OR ((R (fst rn) + 1) AND 0x7F),
        ticks := ticks (fst rn) + 2,
        CTRL := (c2 AND NOT (Z80_M1 OR Z80_MREQ OR Z80_RD)) OR Z80_RFSH,
        ADDR := push_bit 8 (ucast (I (fst rn)))
                  OR ucast ((R (fst rn) AND 0x80) OR ((R (fst rn) + 1) AND 0x7F)),
        DATA := d2\<rparr>"
    by (simp add: r9_def fst_on_cpu ON_def OFF_def s4 IR_def)
  obtain c3 a3 d3 where "fst (TICK tick_func r9) =
      (fst r9)\<lparr>CTRL := c3, ADDR := a3, DATA := d3, ticks := ticks (fst r9) + 1\<rparr>"
    using TICK_pins[OF assms] by blast
  then have s11: "fst r11 =
      (fst rn)\<lparr>PC := PC (fst rn) + 1,
        R := (R (fst rn) AND 0x80) OR ((R (fst rn) + 1) AND 0x7F),
        ticks := ticks (fst rn) + 3, CTRL := c3 OR Z80_MREQ, ADDR := a3, DATA := d3\<rparr>"
    by (simp add: r11_def fst_on_cpu ON_def s9)
  obtain c4 a4 d4 where "fst (TICK tick_func r11) =
      (fst r11)\<lparr>CTRL := c4, ADDR := a4, DATA := d4, ticks := ticks (fst r11) + 1\<rparr>"
    using TICK_pins[OF assms] by blast
  then have "fst (z80_fetch tick_func rn) =
      (fst rn)\<lparr>PC := PC (fst rn) + 1,
        R := (R (fst rn) AND 0x80) OR ((R (fst rn) + 1) AND 0x7F),
        ticks := ticks (fst rn) + 4,
        CTRL := c4 AND NOT (Z80_RFSH OR Z80_MREQ), ADDR := a4, DATA := d4\<rparr>"
    by (simp add: f fst_on_cpu OFF_def s11)
  then show ?thesis by blast
qed

text \<open>The fetch of a step, started from \<open>ticks = 0\<close> and an empty trace.\<close>

lemma z80_step_fetch_pins:
  assumes "tick_pins_only tick_func"
  shows "\<exists>c a d. fst (z80_fetch tick_func (cpu\<lparr>ticks := 0\<rparr>, [])) =
           cpu\<lparr>PC := PC cpu + 1, R := (R cpu AND 0x80) OR ((R cpu + 1) AND 0x7F),
               ticks := 4, CTRL := c, ADDR := a, DATA := d\<rparr>"
proof -
  let ?r0 = "(cpu\<lparr>ticks := 0\<rparr>, []) :: run"
  from z80_fetch_pins[OF assms, of ?r0] obtain c a d where
    "fst (z80_fetch tick_func ?r0) =
       (fst ?r0)\<lparr>PC := PC (fst ?r0) + 1,
         R := (R (fst ?r0) AND 0x80) OR ((R (fst ?r0) + 1) AND 0x7F),
         ticks := ticks (fst ?r0) + 4, CTRL := c, ADDR := a, DATA := d\<rparr>"
    by blast
  then have "fst (z80_fetch tick_func ?r0) =
      cpu\<lparr>PC := PC cpu + 1, R := (R cpu AND 0x80) OR ((R cpu + 1) AND 0x7F),
        ticks := 4, CTRL := c, ADDR := a, DATA := d\<rparr>"
    by simp
  then show ?thesis by blast
qed

subsection \<open>Single opcodes in the decoder\<close>

lemma z80_op_nop: "DATA (fst rn) = 0x00 \<Longrightarrow> z80_op tick_func rn = rn"
  by (simp add: z80_op_def Let_def)

lemma z80_op_ld_b_c:
  "DATA (fst rn) = 0x41 \<Longrightarrow> z80_op tick_func rn = on_cpu (\<lambda>c. c\<lparr>B := C c\<rparr>) rn"
  by (simp add: z80_op_def Let_def r8_set_def r8_get_def)

lemma z80_op_halt: "DATA (fst rn) = 0x76 \<Longrightarrow> z80_op tick_func rn = on_cpu z80_halt rn"
  by (simp add: z80_op_def Let_def)

subsection \<open>The refresh counter\<close>

lemma and_and_num_u8:
  fixes k :: u8
  shows "(k AND m) AND n = k AND (m AND n)"
  by (simp add: ac_simps)

lemma refresh_high:
  fixes r :: u8
  shows "((r AND 0x80) OR ((r + 1) AND 0x7F)) AND 0x80 = r AND 0x80"
  by (simp add: bit.conj_disj_distrib2 and_and_num_u8)

lemma refresh_low:
  fixes r :: u8
  shows "unat (((r AND 0x80) OR ((r + 1) AND 0x7F)) AND 0x7F) = (unat (r AND 0x7F) + 1) mod 128"
proof -
  have m: "(0x7F :: u8) = mask 7" by (simp add: mask_eq_exp_minus_1)
  have "((r AND 0x80) OR ((r + 1) AND 0x7F)) AND 0x7F = (r + 1) AND 0x7F"
    by (simp add: bit.conj_disj_distrib2 and_and_num_u8)
  then have "unat (((r AND 0x80) OR ((r + 1) AND 0x7F)) AND 0x7F) = unat (take_bit 7 (r + 1))"
    by (simp add: m take_bit_eq_mask)
  also have "\<dots> = (unat r + 1) mod 128"
    by (simp add: unsigned_take_bit_eq take_bit_eq_mod unat_word_ariths mod_mod_cancel)
  also have "\<dots> = (unat r mod 128 + 1) mod 128"
    by (simp add: mod_simps)
  also have "unat r mod 128 = unat (take_bit 7 r)"
  proof -
    have "unat (take_bit 7 r) = take_bit 7 (unat r)" by (rule unsigned_take_bit_eq)
    then show ?thesis by (simp only: take_bit_eq_mod) simp
  qed
  finally show ?thesis by (simp add: m take_bit_eq_mask)
qed

section \<open>Properties of the Z80 execution driver\<close>

text \<open>
  Claim C3. The claim asks that \<open>z80_run\<close>, for a budget \<open>N > 0\<close>, executes whole
  instructions until at least \<open>N\<close> cycles are consumed and returns that count. The
  function in the source does none of this: for every callback, CPU state and budget
  it returns 0, invokes the callback not once and leaves the CPU state as it was.
\<close>

theorem z80_run_returns_zero:
  "snd (z80_run tick_func cpu t) = 0
   \<and> fst (z80_run tick_func cpu t) = (cpu, [])
   \<and> unat (snd (z80_run (rom_tick 0x00) (z80_init 0) 1)) < unat (1 :: u32)"
  by (simp add: z80_run_def)

text \<open>
  Claim C7, as amended. For every Z80 CPU state and every tick callback that leaves
  the cycle counter \<open>cpu->ticks\<close> as it found it, the cycle count returned by \<open>z80_step\<close>
  equals the number of callback invocations made during that call.
\<close>

theorem z80_step_cycles_eq_invocations:
  assumes "tick_keeps_ticks tick_func"
  shows "unat (snd (z80_step tick_func cpu)) = length (snd (fst (z80_step tick_func cpu)))"
proof -
  let ?r0 = "(cpu\<lparr>ticks := 0\<rparr>, []) :: run"
  let ?r1 = "z80_fetch tick_func ?r0"
  let ?r2 = "z80_op tick_func ?r1"
  from z80_op_count[OF assms, of ?r1] obtain n where n: "n \<le> 3"
    and tk: "ticks (fst ?r2) = ticks (fst ?r1) + of_nat n"
    and ln: "length (snd ?r2) = length (snd ?r1) + n"
    by blast
  have t1: "ticks (fst ?r1) = 4" using z80_fetch_ticks[OF assms, of ?r0] by simp
  have l1: "length (snd ?r1) = 4" using z80_fetch_trace[of tick_func ?r0] by simp
  have "ticks (fst ?r2) = of_nat (4 + n)" using tk t1 by simp
  moreover have "4 + n \<le> 7" using n by simp
  ultimately have "unat (ticks (fst ?r2)) = 4 + n" by (simp only: unat_of_nat_small)
  moreover have "length (snd ?r2) = 4 + n" using ln l1 by simp
  ultimately show ?thesis by (simp add: z80_step_def Let_def)
qed

text \<open>
  The amended claim C7 at a host that answers every memory read with 0x70
  (\<open>LD (HL),B\<close>: a fetch and a memory write, seven cycles).
\<close>

theorem z80_step_cycles_eq_invocations_witness:
  "tick_keeps_ticks (rom_tick 0x70)
   \<and> unat (snd (z80_step (rom_tick 0x70) (z80_init 0)))
       = length (snd (fst (z80_step (rom_tick 0x70) (z80_init 0))))"
proof -
  have h: "tick_keeps_ticks (rom_tick 0x70)" by (rule rom_tick_keeps)
  from z80_step_cycles_eq_invocations[OF h, of "z80_init 0"] h show ?thesis by blast
qed

text \<open>
  Claim C7 as stated (for every tick callback) fails: the callback receives the whole
  CPU struct, cycle counter included. With the host \<open>wait_tick\<close>, which adds a wait cycle
  to \<open>cpu->ticks\<close> at every invocation, a step from the zero-initialised CPU returns 8
  after 4 invocations.
\<close>

theorem z80_step_cycles_counterexample:
  "snd (z80_step wait_tick (z80_init 0)) = 8
   \<and> length (snd (fst (z80_step wait_tick (z80_init 0)))) = 4
   \<and> unat (snd (z80_step wait_tick (z80_init 0)))
       \<noteq> length (snd (fst (z80_step wait_tick (z80_init 0))))"
  by code_simp

text \<open>
  Claim C4, as amended. For every Z80 CPU state and every tick callback that changes
  only the pin fields, if the opcode byte in DATA at the end of the fetch is 0x00 (NOP),
  then one \<open>z80_step\<close> returns 4 after exactly 4 callback invocations, advances PC by one
  (modulo \<open>2^16\<close>), replaces R by \<open>(R & 0x80) | ((R + 1) & 0x7F)\<close>, that is, keeps bit 7
  of R and increments its low seven bits modulo 128, and leaves every other register
  (A, F, B, C, D, E, H, L, the alternate banks, IX, IY, I, SP, WZ, the interrupt mode
  and latches) unchanged; besides PC and R only the cycle counter and the pin fields
  differ.
\<close>

theorem z80_step_nop:
  assumes "tick_pins_only tick_func"
      and "DATA (fst (z80_fetch tick_func (cpu\<lparr>ticks := 0\<rparr>, []))) = 0x00"
  shows "snd (z80_step tick_func cpu) = 4
       \<and> length (snd (fst (z80_step tick_func cpu))) = 4
       \<and> (\<exists>c a. fst (fst (z80_step tick_func cpu)) =
             cpu\<lparr>PC := PC cpu + 1, R := (R cpu AND 0x80) OR ((R cpu + 1) AND 0x7F),
                 ticks := 4, CTRL := c, ADDR := a, DATA := 0x00\<rparr>)
       \<and> R (fst (fst (z80_step tick_func cpu))) AND 0x80 = R cpu AND 0x80
       \<and> unat (R (fst (fst (z80_step tick_func cpu))) AND 0x7F)
           = (unat (R cpu AND 0x7F) + 1) mod 128"
proof -
  let ?f = "z80_fetch tick_func (cpu\<lparr>ticks := 0\<rparr>, [])"
  have st: "z80_step tick_func cpu = (?f, ticks (fst ?f))"
    using assms(2) by (simp add: z80_step_def Let_def z80_op_nop)
  from z80_step_fetch_pins[OF assms(1), of cpu] obtain c a d where
    f0: "fst ?f = cpu\<lparr>PC := PC cpu + 1, R := (R cpu AND 0x80) OR ((R cpu + 1) AND 0x7F),
       ticks := 4, CTRL := c, ADDR := a, DATA := d\<rparr>"
    by blast
  with assms(2) have "d = 0" by simp
  with f0 have f: "fst ?f =
      cpu\<lparr>PC := PC cpu + 1, R := (R cpu AND 0x80) OR ((R cpu + 1) AND 0x7F),
        ticks := 4, CTRL := c, ADDR := a, DATA := 0\<rparr>"
    by simp
  have n: "snd (z80_step tick_func cpu) = 4" by (simp add: st f)
  have l: "length (snd (fst (z80_step tick_func cpu))) = 4"
    using z80_fetch_trace[of tick_func "(cpu\<lparr>ticks := 0\<rparr>, [])"] by (simp add: st)
  have e: "\<exists>c a. fst (fst (z80_step tick_func cpu)) =
             cpu\<lparr>PC := PC cpu + 1, R := (R cpu AND 0x80) OR ((R cpu + 1) AND 0x7F),
                 ticks := 4, CTRL := c, ADDR := a, DATA := 0x00\<rparr>"
    using f by (simp only: st fst_conv) blast
  have r: "R (fst (fst (z80_step tick_func cpu))) = (R cpu AND 0x80) OR ((R cpu + 1) AND 0x7F)"
    by (simp add: st f)
  show ?thesis
    using n l e refresh_high[of "R cpu"] refresh_low[of "R cpu"] unfolding r by blast
qed

text \<open>
  The amended claim C4 at the zero-initialised CPU and a host whose memory is all
  NOPs.
\<close>

theorem z80_step_nop_witness:
  "tick_pins_only (rom_tick 0x00)
   \<and> DATA (fst (z80_fetch (rom_tick 0x00) ((z80_init 0)\<lparr>ticks := 0\<rparr>, []))) = 0x00
   \<and> snd (z80_step (rom_tick 0x00) (z80_init 0)) = 4
   \<and> length (snd (fst (z80_step (rom_tick 0x00) (z80_init 0)))) = 4
   \<and> (\<exists>c a. fst (fst (z80_step (rom_tick 0x00) (z80_init 0))) =
         (z80_init 0)\<lparr>PC := PC (z80_init 0) + 1,
            R := (R (z80_init 0) AND 0x80) OR ((R (z80_init 0) + 1) AND 0x7F),
            ticks := 4, CTRL := c, ADDR := a, DATA := 0x00\<rparr>)"
proof -
  have h1: "tick_pins_only (rom_tick 0x00)" by (rule rom_tick_pins)
  have h2: "DATA (fst (z80_fetch (rom_tick 0x00) ((z80_init 0)\<lparr>ticks := 0\<rparr>, []))) = 0x00"
    by code_simp
  from z80_step_nop[OF h1 h2] h1 h2 show ?thesis by blast
qed

text \<open>
  Claim C4 as stated fails in two ways. With R = 0x7F and a host whose memory is all
  NOPs, the opcode delivered is 0x00 and the step leaves R = 0x00, whereas R + 1 is
  0x80: the refresh counter is seven bits wide. And the claim puts no condition on the
  callback: with the host \<open>wait_tick\<close> the opcode delivered is again 0x00 and the step
  returns 8, not 4.
\<close>

theorem z80_step_nop_counterexample:
  "DATA (fst (z80_fetch (rom_tick 0x00) ((z80_init 0)\<lparr>R := 0x7F, ticks := 0\<rparr>, []))) = 0x00
   \<and> R (fst (fst (z80_step (rom_tick 0x00) ((z80_init 0)\<lparr>R := 0x7F\<rparr>)))) = 0x00
   \<and> R ((z80_init 0)\<lparr>R := 0x7F\<rparr>) + 1 = 0x80
   \<and> R (fst (fst (z80_step (rom_tick 0x00) ((z80_init 0)\<lparr>R := 0x7F\<rparr>))))
       \<noteq> R ((z80_init 0)\<lparr>R := 0x7F\<rparr>) + 1
   \<and> DATA (fst (z80_fetch wait_tick ((z80_init 0)\<lparr>ticks := 0\<rparr>, []))) = 0x00
   \<and> snd (z80_step wait_tick (z80_init 0)) = 8"
  by code_simp

text \<open>
  Claim C8. For every Z80 CPU state and every tick callback: if the opcode byte in DATA
  at the end of the fetch is 0x41 (x = 1, y = 0, z = 1: \<open>LD B,C\<close>, with \<open>r8[y^1]\<close> = B and
  \<open>r8[z^1]\<close> = C), then the decoder copies C into B, changes nothing else (C included)
  and invokes the callback not once, so the step consists of the four callback
  invocations of the fetch and returns the cycle count reached by the fetch. If
  moreover the callback changes only the pin fields, B and C after the step both hold
  the value C had before the step and the step returns 4.
\<close>

theorem z80_step_ld_b_c:
  assumes "DATA (fst (z80_fetch tick_func (cpu\<lparr>ticks := 0\<rparr>, []))) = 0x41"
  shows "let f = z80_fetch tick_func (cpu\<lparr>ticks := 0\<rparr>, [])
         in z80_op tick_func f = ((fst f)\<lparr>B := C (fst f)\<rparr>, snd f)
          \<and> z80_step tick_func cpu = (((fst f)\<lparr>B := C (fst f)\<rparr>, snd f), ticks (fst f))
          \<and> length (snd (fst (z80_step tick_func cpu))) = 4
          \<and> (tick_pins_only tick_func \<longrightarrow>
                B (fst (fst (z80_step tick_func cpu))) = C cpu
              \<and> C (fst (fst (z80_step tick_func cpu))) = C cpu
              \<and> snd (z80_step tick_func cpu) = 4)"
proof -
  let ?f = "z80_fetch tick_func (cpu\<lparr>ticks := 0\<rparr>, [])"
  have op: "z80_op tick_func ?f = ((fst ?f)\<lparr>B := C (fst ?f)\<rparr>, snd ?f)"
    using z80_op_ld_b_c[OF assms] by (simp add: on_cpu_def)
  have st: "z80_step tick_func cpu = (((fst ?f)\<lparr>B := C (fst ?f)\<rparr>, snd ?f), ticks (fst ?f))"
    by (simp add: z80_step_def Let_def op)
  have l: "length (snd (fst (z80_step tick_func cpu))) = 4"
    using z80_fetch_trace[of tick_func "(cpu\<lparr>ticks := 0\<rparr>, [])"] by (simp add: st)
  have p: "B (fst (fst (z80_step tick_func cpu))) = C cpu
         \<and> C (fst (fst (z80_step tick_func cpu))) = C cpu
         \<and> snd (z80_step tick_func cpu) = 4" if "tick_pins_only tick_func"
  proof -
    from z80_step_fetch_pins[OF that, of cpu] obtain c a d where
      "fst ?f = cpu\<lparr>PC := PC cpu + 1, R := (R cpu AND 0x80) OR ((R cpu + 1) AND 0x7F),
         ticks := 4, CTRL := c, ADDR := a, DATA := d\<rparr>"
      by blast
    then show ?thesis by (simp add: st)
  qed
  show ?thesis unfolding Let_def using op st l p by blast
qed

text \<open>
  Claim C8 at a host that answers every memory read with 0x41 and a CPU with
  B = 0x11 and C = 0x5A.
\<close>

theorem z80_step_ld_b_c_witness:
  "DATA (fst (z80_fetch (rom_tick 0x41)
       ((z80_init 0)\<lparr>C := 0x5A, B := 0x11, ticks := 0\<rparr>, []))) = 0x41
   \<and> tick_pins_only (rom_tick 0x41)
   \<and> B (fst (fst (z80_step (rom_tick 0x41) ((z80_init 0)\<lparr>C := 0x5A, B := 0x11\<rparr>)))) = 0x5A
   \<and> C (fst (fst (z80_step (rom_tick 0x41) ((z80_init 0)\<lparr>C := 0x5A, B := 0x11\<rparr>)))) = 0x5A
   \<and> snd (z80_step (rom_tick 0x41) ((z80_init 0)\<lparr>C := 0x5A, B := 0x11\<rparr>)) = 4
   \<and> length (snd (fst (z80_step (rom_tick 0x41) ((z80_init 0)\<lparr>C := 0x5A, B := 0x11\<rparr>)))) = 4"
proof -
  have h: "DATA (fst (z80_fetch (rom_tick 0x41)
       ((z80_init 0)\<lparr>C := 0x5A, B := 0x11, ticks := 0\<rparr>, []))) = 0x41"
    by code_simp
  have p: "tick_pins_only (rom_tick 0x41)" by (rule rom_tick_pins)
  have c: "C ((z80_init 0)\<lparr>C := 0x5A, B := 0x11\<rparr>) = 0x5A" by simp
  note t = z80_step_ld_b_c[OF h, unfolded Let_def]
  from t p have q:
    "B (fst (fst (z80_step (rom_tick 0x41) ((z80_init 0)\<lparr>C := 0x5A, B := 0x11\<rparr>))))
       = C ((z80_init 0)\<lparr>C := 0x5A, B := 0x11\<rparr>)
     \<and> C (fst (fst (z80_step (rom_tick 0x41) ((z80_init 0)\<lparr>C := 0x5A, B := 0x11\<rparr>))))
       = C ((z80_init 0)\<lparr>C := 0x5A, B := 0x11\<rparr>)
     \<and> snd (z80_step (rom_tick 0x41) ((z80_init 0)\<lparr>C := 0x5A, B := 0x11\<rparr>)) = 4"
    by blast
  from t have l:
    "length (snd (fst (z80_step (rom_tick 0x41) ((z80_init 0)\<lparr>C := 0x5A, B := 0x11\<rparr>)))) = 4"
    by blast
  from q l h p show ?thesis unfolding c by blast
qed

text \<open>
  The decoding order at opcode 0x76 (x = 1, y = 6, z = 6). For every Z80 CPU state and
  every tick callback: if the opcode byte in DATA at the end of the fetch is 0x76, the
  decoder takes the HALT special case before the general \<open>LD (HL),r\<close> handling: its
  result is that of \<open>_z80_halt\<close> on the fetched state with the trace untouched, and not
  that of the memory write cycle for \<open>r8[6^1]\<close>. The step consists of the four callback
  invocations of the fetch.
\<close>

lemma z80_op_halt_before_write:
  assumes "DATA (fst (z80_fetch tick_func (cpu\<lparr>ticks := 0\<rparr>, []))) = 0x76"
  shows "let f = z80_fetch tick_func (cpu\<lparr>ticks := 0\<rparr>, [])
         in z80_op tick_func f = (z80_halt (fst f), snd f)
          \<and> z80_op tick_func f \<noteq> z80_write tick_func (HL (fst f)) (r8_get (fst f) (6 XOR 1)) f
          \<and> z80_step tick_func cpu = ((z80_halt (fst f), snd f), ticks (z80_halt (fst f)))
          \<and> snd (fst (z80_step tick_func cpu)) = snd f
          \<and> length (snd (fst (z80_step tick_func cpu))) = 4"
proof -
  let ?f = "z80_fetch tick_func (cpu\<lparr>ticks := 0\<rparr>, [])"
  have op: "z80_op tick_func ?f = (z80_halt (fst ?f), snd ?f)"
    using z80_op_halt[OF assms] by (simp add: on_cpu_def)
  have "length (snd (z80_op tick_func ?f))
          \<noteq> length (snd (z80_write tick_func (HL (fst ?f)) (r8_get (fst ?f) (6 XOR 1)) ?f))"
    by (simp add: op z80_write_trace)
  then have ne: "z80_op tick_func ?f
          \<noteq> z80_write tick_func (HL (fst ?f)) (r8_get (fst ?f) (6 XOR 1)) ?f"
    by metis
  have st: "z80_step tick_func cpu = ((z80_halt (fst ?f), snd ?f), ticks (z80_halt (fst ?f)))"
    by (simp add: z80_step_def Let_def op)
  have l: "length (snd (fst (z80_step tick_func cpu))) = 4"
    using z80_fetch_trace[of tick_func "(cpu\<lparr>ticks := 0\<rparr>, [])"] by (simp add: st)
  have tr: "snd (fst (z80_step tick_func cpu)) = snd ?f" by (simp add: st)
  show ?thesis unfolding Let_def using op ne st tr l by blast
qed

text \<open>
  Claim C9. The claim asks that a step on opcode 0x76 is detected as HALT, performs
  halt behaviour and issues no memory write. The detection and the absence of a write
  hold (lemma above), but the code performs no halt behaviour: \<open>_z80_halt\<close> has an empty
  body, so it leaves every CPU state as it is. At the zero-initialised CPU and a host
  that answers every memory read with 0x76, the opcode delivered is 0x76, the step
  takes 4 cycles and 4 callback invocations, and afterwards the HALT pin is not
  active, PC has advanced to 1, and the CPU state is the one a NOP step leaves, apart
  from the opcode byte on the data pins; a second step fetches the next byte and
  leaves PC = 2. The CPU is never halted.
\<close>

theorem z80_step_halt_does_not_halt:
  "z80_halt cpu = cpu
   \<and> DATA (fst (z80_fetch (rom_tick 0x76) ((z80_init 0)\<lparr>ticks := 0\<rparr>, []))) = 0x76
   \<and> snd (z80_step (rom_tick 0x76) (z80_init 0)) = 4
   \<and> length (snd (fst (z80_step (rom_tick 0x76) (z80_init 0)))) = 4
   \<and> z80_any (fst (fst (z80_step (rom_tick 0x76) (z80_init 0)))) Z80_HALT = False
   \<and> PC (fst (fst (z80_step (rom_tick 0x76) (z80_init 0)))) = 1
   \<and> fst (fst (z80_step (rom_tick 0x76) (z80_init 0)))
       = (fst (fst (z80_step (rom_tick 0x00) (z80_init 0))))\<lparr>DATA := 0x76\<rparr>
   \<and> PC (fst (fst (z80_step (rom_tick 0x76)
           (fst (fst (z80_step (rom_tick 0x76) (z80_init 0))))))) = 2
   \<and> z80_any (fst (fst (z80_step (rom_tick 0x76)
           (fst (fst (z80_step (rom_tick 0x76) (z80_init 0))))))) Z80_HALT = False"
proof -
  have h: "z80_halt cpu = cpu" by (simp add: z80_halt_def)
  have c: "DATA (fst (z80_fetch (rom_tick 0x76) ((z80_init 0)\<lparr>ticks := 0\<rparr>, []))) = 0x76
   \<and> snd (z80_step (rom_tick 0x76) (z80_init 0)) = 4
   \<and> length (snd (fst (z80_step (rom_tick 0x76) (z80_init 0)))) = 4
   \<and> z80_any (fst (fst (z80_step (rom_tick 0x76) (z80_init 0)))) Z80_HALT = False
   \<and> PC (fst (fst (z80_step (rom_tick 0x76) (z80_init 0)))) = 1
   \<and> fst (fst (z80_step (rom_tick 0x76) (z80_init 0)))
       = (fst (fst (z80_step (rom_tick 0x00) (z80_init 0))))\<lparr>DATA := 0x76\<rparr>
   \<and> PC (fst (fst (z80_step (rom_tick 0x76)
           (fst (fst (z80_step (rom_tick 0x76) (z80_init 0))))))) = 2
   \<and> z80_any (fst (fst (z80_step (rom_tick 0x76)
           (fst (fst (z80_step (rom_tick 0x76) (z80_init 0))))))) Z80_HALT = False"
    by code_simp
  from h c show ?thesis by (rule conjI)
qed

end
